theory Spec2Isabelle
  imports Main "HOL-Library.AList" "HOL-Library.Multiset" "HOL-Library.Code_Target_Nat"
begin

section \<open>The sitemap generator of Ghost: \<^verbatim>\<open>BaseSiteMapGenerator\<close>\<close>

text \<open>
  This theory embeds \<^verbatim>\<open>core/frontend/services/sitemap/base-generator.js\<close>. The class keeps
  two plain JavaScript objects keyed by record id (\<^verbatim>\<open>nodeLookup\<close>, \<^verbatim>\<open>nodeTimeLookup\<close>), a cached
  document (\<^verbatim>\<open>siteMapContent\<close>), a high-water mark (\<^verbatim>\<open>lastModified\<close>) and a cap
  (\<^verbatim>\<open>maxNodes\<close>). Every method becomes a function that takes the generator (and the wall
  clock, where the method reads it) and returns the updated one.
\<close>

subsection \<open>JavaScript values\<close>

text \<open>
  Timestamps are instants in milliseconds since the epoch, as \<^verbatim>\<open>Date.now()\<close> returns them
  (a \<^verbatim>\<open>Date\<close> compares and negates as that number); a field that is \<^verbatim>\<open>undefined\<close> or
  \<^verbatim>\<open>null\<close> is \<open>None\<close>. A number is truthy when it is not
  \<open>0\<close>, a string when it is not empty; \<^verbatim>\<open>a || b\<close> is \<open>a\<close> when \<open>a\<close> is truthy and \<open>b\<close>
  otherwise.
\<close>

definition truthy_num :: "int option \<Rightarrow> bool" where
  "truthy_num v = (case v of None \<Rightarrow> False | Some n \<Rightarrow> n \<noteq> 0)"

definition truthy_str :: "string option \<Rightarrow> bool" where
  "truthy_str v = (case v of None \<Rightarrow> False | Some s \<Rightarrow> s \<noteq> [])"

definition or_number :: "int option \<Rightarrow> int option \<Rightarrow> int option" where
  "or_number a b = (if truthy_num a then a else b)"

definition or_string :: "string option \<Rightarrow> string option \<Rightarrow> string option" where
  "or_string a b = (if truthy_str a then a else b)"

text \<open>The number, or the string, that a truthy value is.\<close>

definition num_of :: "int option \<Rightarrow> int" where
  "num_of v = (case v of None \<Rightarrow> 0 | Some n \<Rightarrow> n)"

definition str_of :: "string option \<Rightarrow> string" where
  "str_of v = (case v of None \<Rightarrow> [] | Some s \<Rightarrow> s)"

subsection \<open>The wall clock\<close>

text \<open>
  \<^verbatim>\<open>Date.now()\<close> reads the world. The clock holds the instant of the last reading and the
  amounts by which it will have advanced at each later reading: time never runs
  backwards, and it may or may not move between two readings.
\<close>

record clock =
  now :: int
  ticks :: "nat list"

definition Date_now :: "clock \<Rightarrow> int \<times> clock" where
  "Date_now c =
     (case ticks c of
        [] \<Rightarrow> (now c, c)
      | d # ds \<Rightarrow> (now c + int d, \<lparr>now = now c + int d, ticks = ds\<rparr>))"

subsection \<open>Plain objects as ordered property lists\<close>

text \<open>
  A plain object is the list of its own properties in the order in which JavaScript
  enumerates them: the keys that are array indices (canonical decimal numerals below
  \<open>2^32 - 1\<close>) in ascending numeric order, then every other key in the order of creation.
  Assigning to an existing key keeps its place; \<^verbatim>\<open>delete\<close> of a missing key does nothing.
  Keys are the names of ordinary own properties: a record id such as \<^verbatim>\<open>__proto__\<close>, which
  an assignment does not turn into an own property, is outside the model.
\<close>

type_synonym 'v js_object = "(string \<times> 'v) list"

definition is_digit :: "char \<Rightarrow> bool" where
  "is_digit ch = (48 \<le> (of_char ch :: nat) \<and> (of_char ch :: nat) \<le> 57)"

definition decimal :: "string \<Rightarrow> nat" where
  "decimal s = foldl (\<lambda>n ch. 10 * n + ((of_char ch :: nat) - 48)) 0 s"

definition array_index :: "string \<Rightarrow> nat option" where
  "array_index k =
     (if k \<noteq> [] \<and> list_all is_digit k \<and> (k = ''0'' \<or> hd k \<noteq> CHR ''0'')
         \<and> decimal k < 2 ^ 32 - 1
      then Some (decimal k) else None)"

fun insert_index :: "nat \<Rightarrow> string \<Rightarrow> 'v \<Rightarrow> 'v js_object \<Rightarrow> 'v js_object" where
  "insert_index n k v [] = [(k, v)]"
| "insert_index n k v (p # ps) =
     (case array_index (fst p) of
        Some m \<Rightarrow> if m < n then p # insert_index n k v ps else (k, v) # p # ps
      | None \<Rightarrow> (k, v) # p # ps)"

definition js_get :: "'v js_object \<Rightarrow> string \<Rightarrow> 'v option" where
  "js_get obj k = map_of obj k"

definition js_keys :: "'v js_object \<Rightarrow> string list" where
  "js_keys obj = map fst obj"

definition js_put :: "string \<Rightarrow> 'v \<Rightarrow> 'v js_object \<Rightarrow> 'v js_object" where
  "js_put k v obj =
     (if k \<in> set (js_keys obj) then AList.update k v obj
      else case array_index k of
             Some n \<Rightarrow> insert_index n k v obj
           | None \<Rightarrow> obj @ [(k, v)])"

definition js_delete :: "string \<Rightarrow> 'v js_object \<Rightarrow> 'v js_object" where
  "js_delete k obj = AList.delete k obj"

subsection \<open>Records, nodes and the document\<close>

text \<open>
  A record (\<^verbatim>\<open>datum\<close>) carries its id (\<open>datum_id\<close>, the source's \<^verbatim>\<open>id\<close> as the property
  key it is used as), three optional timestamps and three optional image references.
\<close>

record datum =
  datum_id :: string
  updated_at :: "int option"
  published_at :: "int option"
  created_at :: "int option"
  cover_image :: "string option"
  profile_image :: "string option"
  feature_image :: "string option"

text \<open>
  The node of a record is \<^verbatim>\<open>{url: [{loc: ...}, {lastmod: ...}]}\<close>, with
  \<^verbatim>\<open>{'image:image': [{'image:loc': ...}, {'image:caption': ...}]}\<close> pushed onto the array
  when the record has a valid image.
\<close>

datatype image_el = Image_loc string | Image_caption string

datatype url_el = Loc string | Lastmod int | Image_image "image_el list"

datatype node = Url "url_el list"

text \<open>
  The object handed to the serializer is \<^verbatim>\<open>{urlset: [XMLNS_DECLS].concat(nodes)}\<close>.
\<close>

datatype urlset_el = Attr "(string \<times> string) list" | Node node

datatype sitemap_data = Urlset "urlset_el list"

definition XMLNS_DECLS :: urlset_el where
  "XMLNS_DECLS =
     Attr [(''xmlns'', ''http://www.sitemaps.org/schemas/sitemap/0.9''),
           (''xmlns:image'', ''http://www.google.com/schemas/sitemap-image/1.1'')]"

text \<open>
  The collaborators the class requires: the \<^verbatim>\<open>xml\<close> serializer, the declaration provider
  \<^verbatim>\<open>localUtils.getDeclarations\<close>, \<^verbatim>\<open>urlUtils.transformReadyToAbsolute\<close>,
  \<^verbatim>\<open>urlUtils.urlFor('image', {image: ...}, true)\<close> (whose result may be falsy) and
  \<^verbatim>\<open>path.basename\<close>. They are pure functions and parameters of the model.
\<close>

record collaborators =
  xml :: "sitemap_data \<Rightarrow> string"
  getDeclarations :: string
  transformReadyToAbsolute :: "string \<Rightarrow> string"
  urlFor_image :: "string \<Rightarrow> string option"
  path_basename :: "string \<Rightarrow> string"

subsection \<open>The generator\<close>

record generator =
  nodeLookup :: "node js_object"
  nodeTimeLookup :: "int js_object"
  siteMapContent :: "string option"
  lastModified :: int
  maxNodes :: nat

definition new_generator :: generator where
  "new_generator =
     \<lparr>nodeLookup = [], nodeTimeLookup = [], siteMapContent = None,
      lastModified = 0, maxNodes = 50000\<rparr>"

text \<open>
  \<^verbatim>\<open>generateXmlFromNodes\<close>, lines 26 to 44: the triples \<open>(id, ts, node)\<close> of the node
  object in enumeration order (\<open>nodeTriples\<close>), with \<^verbatim>\<open>ts = -(nodeTimeLookup[id] || 0)\<close>;
  cut to the first \<^verbatim>\<open>maxNodes\<close> when \<^verbatim>\<open>maxNodes\<close> is truthy; sorted by \<^verbatim>\<open>ts\<close>
  (\<^verbatim>\<open>_.sortBy\<close> is a stable ascending sort, as \<open>sort_key\<close> is). \<open>sitemapData\<close> is the
  object \<^verbatim>\<open>data\<close> of line 46, with the nodes alone.
\<close>

definition nodeTime :: "generator \<Rightarrow> string \<Rightarrow> int" where
  "nodeTime g k = num_of (or_number (js_get (nodeTimeLookup g) k) (Some 0))"

definition nodeTriples :: "generator \<Rightarrow> (string \<times> int \<times> node) list" where
  "nodeTriples g = map (\<lambda>(k, nd). (k, - nodeTime g k, nd)) (nodeLookup g)"

definition nodesToProcess :: "generator \<Rightarrow> (string \<times> int \<times> node) list" where
  "nodesToProcess g =
     (let mapped = nodeTriples g;
          sliced = (if maxNodes g \<noteq> 0 then take (maxNodes g) mapped else mapped)
      in sort_key (\<lambda>e. fst (snd e)) sliced)"

definition sitemapData :: "generator \<Rightarrow> sitemap_data" where
  "sitemapData g = Urlset ([XMLNS_DECLS] @ map (\<lambda>e. Node (snd (snd e))) (nodesToProcess g))"

definition generateXmlFromNodes :: "collaborators \<Rightarrow> generator \<Rightarrow> string" where
  "generateXmlFromNodes env g =
     (let sitemapXml = getDeclarations env @ xml env (sitemapData g)
      in transformReadyToAbsolute env sitemapXml)"

definition getLastModifiedForDatum :: "datum \<Rightarrow> clock \<Rightarrow> int \<times> clock" where
  "getLastModifiedForDatum d c =
     (if truthy_num (or_number (or_number (updated_at d) (published_at d)) (created_at d))
      then let modifiedDate = or_number (or_number (updated_at d) (published_at d)) (created_at d)
           in (num_of modifiedDate, c)
      else Date_now c)"

definition updateLastModified :: "datum \<Rightarrow> generator \<times> clock \<Rightarrow> generator \<times> clock" where
  "updateLastModified d s =
     (let (g, c) = s;
          (lm, c') = getLastModifiedForDatum d c
      in (if lm > lastModified g then g\<lparr>lastModified := lm\<rparr> else g, c'))"

definition validateImageUrl :: "string option \<Rightarrow> bool" where
  "validateImageUrl imageUrl = truthy_str imageUrl"

definition createImageNodeFromDatum :: "collaborators \<Rightarrow> datum \<Rightarrow> url_el option" where
  "createImageNodeFromDatum env d =
     (let image = or_string (or_string (cover_image d) (profile_image d)) (feature_image d)
      in if \<not> truthy_str image then None
         else let imageUrl = urlFor_image env (str_of image)
              in if \<not> validateImageUrl imageUrl then None
                 else let imageEl = [Image_loc (str_of imageUrl),
                                     Image_caption (path_basename env (str_of imageUrl))]
                      in Some (Image_image imageEl))"

definition createUrlNodeFromDatum ::
  "collaborators \<Rightarrow> string \<Rightarrow> datum \<Rightarrow> clock \<Rightarrow> node option \<times> clock" where
  "createUrlNodeFromDatum env u d c =
     (let (lm, c') = getLastModifiedForDatum d c;
          els = [Loc u, Lastmod lm]
      in case createImageNodeFromDatum env d of
           Some imgNode \<Rightarrow> (Some (Url (els @ [imgNode])), c')
         | None \<Rightarrow> (Some (Url els), c'))"

definition updateLookups :: "datum \<Rightarrow> node \<Rightarrow> generator \<times> clock \<Rightarrow> generator \<times> clock" where
  "updateLookups d nd s =
     (let (g, c) = s;
          g1 = g\<lparr>nodeLookup := js_put (datum_id d) nd (nodeLookup g)\<rparr>;
          (lm, c') = getLastModifiedForDatum d c
      in (g1\<lparr>nodeTimeLookup := js_put (datum_id d) lm (nodeTimeLookup g1)\<rparr>, c'))"

definition removeFromLookups :: "datum \<Rightarrow> generator \<Rightarrow> generator" where
  "removeFromLookups d g =
     (let g1 = g\<lparr>nodeLookup := js_delete (datum_id d) (nodeLookup g)\<rparr>
      in g1\<lparr>nodeTimeLookup := js_delete (datum_id d) (nodeTimeLookup g1)\<rparr>)"

definition addUrl ::
  "collaborators \<Rightarrow> string \<Rightarrow> datum \<Rightarrow> generator \<times> clock \<Rightarrow> generator \<times> clock" where
  "addUrl env u d s =
     (let (g, c) = s;
          (nd, c1) = createUrlNodeFromDatum env u d c
      in case nd of
           None \<Rightarrow> (g, c1)
         | Some n \<Rightarrow>
             (let (g3, c3) = updateLookups d n (updateLastModified d (g, c1))
              in (g3\<lparr>siteMapContent := None\<rparr>, c3)))"

definition removeUrl :: "string \<Rightarrow> datum \<Rightarrow> generator \<times> clock \<Rightarrow> generator \<times> clock" where
  "removeUrl u d s =
     (let (g, c) = s;
          g1 = removeFromLookups d g;
          g2 = g1\<lparr>siteMapContent := None\<rparr>;
          (t, c') = Date_now c
      in (g2\<lparr>lastModified := t\<rparr>, c'))"

definition getXml :: "collaborators \<Rightarrow> generator \<Rightarrow> string \<times> generator" where
  "getXml env g =
     (if truthy_str (siteMapContent g) then (str_of (siteMapContent g), g)
      else let content = generateXmlFromNodes env g
           in (content, g\<lparr>siteMapContent := Some content\<rparr>))"

definition reset :: "generator \<Rightarrow> generator" where
  "reset g = g\<lparr>nodeLookup := [], nodeTimeLookup := [], siteMapContent := None\<rparr>"

subsection \<open>Sequences of calls\<close>

datatype call = AddUrl string datum | RemoveUrl string datum | Reset | GetXml

fun perform :: "collaborators \<Rightarrow> generator \<times> clock \<Rightarrow> call \<Rightarrow> generator \<times> clock" where
  "perform env s (AddUrl u d) = addUrl env u d s"
| "perform env s (RemoveUrl u d) = removeUrl u d s"
| "perform env s Reset = (reset (fst s), snd s)"
| "perform env s GetXml = (snd (getXml env (fst s)), snd s)"

definition run :: "collaborators \<Rightarrow> call list \<Rightarrow> generator \<times> clock \<Rightarrow> generator \<times> clock" where
  "run env calls s = foldl (perform env) s calls"

subsection \<open>Observations and invariants\<close>

text \<open>The \<^verbatim>\<open>url\<close> elements of a document, in document order.\<close>

definition url_elements :: "sitemap_data \<Rightarrow> node list" where
  "url_elements doc =
     (case doc of
        Urlset els \<Rightarrow> concat (map (\<lambda>el. case el of Node nd \<Rightarrow> [nd] | Attr _ \<Rightarrow> []) els))"

text \<open>The \<^verbatim>\<open>image:image\<close> fragments of a node.\<close>

definition image_fragments :: "node \<Rightarrow> url_el list" where
  "image_fragments nd =
     (case nd of
        Url els \<Rightarrow> filter (\<lambda>el. case el of Image_image _ \<Rightarrow> True | _ \<Rightarrow> False) els)"

text \<open>
  The first present value of a list of optional strings, as the specification words the
  choice among \<^verbatim>\<open>cover_image\<close>, \<^verbatim>\<open>profile_image\<close> and \<^verbatim>\<open>feature_image\<close>; to be
  compared with what \<open>createImageNodeFromDatum\<close> computes.
\<close>

definition first_present :: "string option list \<Rightarrow> string option" where
  "first_present vs = (case filter truthy_str vs of [] \<Rightarrow> None | v # _ \<Rightarrow> v)"

text \<open>
  What holds of every generator that the methods can produce: the node object has no key
  twice, both objects enumerate the same keys in the same order, and a truthy cached
  document is the rendering of the current contents.
\<close>

definition index_ok :: "collaborators \<Rightarrow> generator \<Rightarrow> bool" where
  "index_ok env g =
     (distinct (js_keys (nodeLookup g)) \<and> js_keys (nodeLookup g) = js_keys (nodeTimeLookup g) \<and>
      (if truthy_str (siteMapContent g)
       then siteMapContent g = Some (generateXmlFromNodes env g) else True))"

text \<open>The image fragment that \<open>createUrlNodeFromDatum\<close> pushes, as a list.\<close>

definition image_part :: "collaborators \<Rightarrow> datum \<Rightarrow> url_el list" where
  "image_part env d = (case createImageNodeFromDatum env d of Some i \<Rightarrow> [i] | None \<Rightarrow> [])"

subsection \<open>A concrete set of collaborators and records\<close>

text \<open>
  For runs on concrete inputs: \<^verbatim>\<open>path.basename\<close> as it is on POSIX (trailing slashes
  dropped, then what follows the last slash), a resolver that puts the image reference
  under the site's image directory and fails on the empty path \<^verbatim>\<open>/\<close>, a serializer that
  lists the locations, and the identity as the rewriting pass.
\<close>

definition posix_basename :: "string \<Rightarrow> string" where
  "posix_basename p =
     rev (takeWhile (\<lambda>ch. ch \<noteq> CHR ''/'') (dropWhile (\<lambda>ch. ch = CHR ''/'') (rev p)))"

definition sample_xml :: "sitemap_data \<Rightarrow> string" where
  "sample_xml doc =
     ''<urlset>'' @
     concat (map (\<lambda>nd. case nd of Url els \<Rightarrow>
        ''<url>'' @
        concat (map (\<lambda>el. case el of Loc l \<Rightarrow> ''<loc>'' @ l @ ''</loc>'' | _ \<Rightarrow> []) els) @
        ''</url>'') (url_elements doc)) @
     ''</urlset>''"

definition sample_env :: collaborators where
  "sample_env =
     \<lparr>xml = sample_xml,
      getDeclarations = ''<?xml?>'',
      transformReadyToAbsolute = (\<lambda>x. x),
      urlFor_image = (\<lambda>r. if r = ''/'' then None else Some (''https://site/content/images/'' @ r)),
      path_basename = posix_basename\<rparr>"

definition record_at :: "string \<Rightarrow> int option \<Rightarrow> datum" where
  "record_at k t =
     \<lparr>datum_id = k, updated_at = t, published_at = None, created_at = None,
      cover_image = None, profile_image = None, feature_image = None\<rparr>"

definition clock_at :: "int \<Rightarrow> nat list \<Rightarrow> clock" where
  "clock_at t ds = \<lparr>now = t, ticks = ds\<rparr>"

subsection \<open>Sequences of additions and the high-water mark\<close>

text \<open>The calls of a sequence of additions.\<close>

definition add_calls :: "(string \<times> datum) list \<Rightarrow> call list" where
  "add_calls adds = map (\<lambda>a. AddUrl (fst a) (snd a)) adds"

text \<open>A record with a truthy \<^verbatim>\<open>updated_at\<close>, \<^verbatim>\<open>published_at\<close> or \<^verbatim>\<open>created_at\<close>.\<close>

definition has_timestamp :: "datum \<Rightarrow> bool" where
  "has_timestamp d =
     (truthy_num (updated_at d) \<or> truthy_num (published_at d) \<or> truthy_num (created_at d))"

text \<open>No stored timestamp is above \<^verbatim>\<open>lastModified\<close>.\<close>

definition bounded_by_lastModified :: "generator \<Rightarrow> bool" where
  "bounded_by_lastModified g = list_all (\<lambda>p. snd p \<le> lastModified g) (nodeTimeLookup g)"

section \<open>Properties\<close>

subsection \<open>Property lists\<close>

lemma set_insert_index: "set (insert_index n k v ps) = insert (k, v) (set ps)"
  by (induction ps) (auto split: option.splits)

lemma distinct_insert_index:
  "k \<notin> fst ` set ps \<Longrightarrow> distinct (map fst ps) \<Longrightarrow> distinct (map fst (insert_index n k v ps))"
  by (induction ps) (auto simp: set_insert_index split: option.splits)

lemma js_put_distinct: "distinct (js_keys obj) \<Longrightarrow> distinct (js_keys (js_put k v obj))"
  by (auto simp: js_keys_def js_put_def distinct_insert_index AList.distinct_update
      split: option.splits)

lemma map_of_insert_index:
  "k \<notin> fst ` set ps \<Longrightarrow> map_of (insert_index n k v ps) = (map_of ps)(k \<mapsto> v)"
  by (induction ps) (auto split: option.splits)

lemma map_of_snoc:
  "k \<notin> fst ` set ps \<Longrightarrow> map_of (ps @ [(k, v)]) = (map_of ps)(k \<mapsto> v)"
  by (induction ps) auto

lemma js_get_put: "js_get (js_put k v obj) k' = (if k' = k then Some v else js_get obj k')"
  by (auto simp: js_get_def js_put_def js_keys_def map_of_insert_index map_of_snoc AList.update_conv'
      simp del: map_of_append split: option.splits)

lemma js_get_delete: "js_get (js_delete k obj) k' = (if k' = k then None else js_get obj k')"
  by (simp add: js_get_def js_delete_def AList.delete_conv')

lemma js_keys_delete: "js_keys (js_delete k obj) = removeAll k (js_keys obj)"
  by (simp add: js_keys_def js_delete_def AList.delete_keys)

lemma js_delete_absent: "k \<notin> set (js_keys obj) \<Longrightarrow> js_delete k obj = obj"
  by (simp add: js_keys_def js_delete_def)

lemma keys_insert_index_cong:
  "map fst ps = map fst qs \<Longrightarrow> map fst (insert_index n k v ps) = map fst (insert_index n k w qs)"
proof (induction ps arbitrary: qs)
  case Nil
  then show ?case by simp
next
  case (Cons p ps)
  then obtain q qs' where q: "qs = q # qs'" "fst q = fst p" "map fst ps = map fst qs'"
    by (cases qs) auto
  with Cons.IH [of qs'] show ?case
    by (auto split: option.splits)
qed

lemma js_keys_put_cong:
  "js_keys a = js_keys b \<Longrightarrow> js_keys (js_put k v a) = js_keys (js_put k w b)"
  unfolding js_keys_def js_put_def
  by (auto simp: AList.update_keys keys_insert_index_cong split: option.splits)

subsection \<open>The effect of each method\<close>

lemma addUrl_eq:
  "addUrl env u d (g, c) =
     (let (t1, c1) = getLastModifiedForDatum d c;
          (t2, c2) = getLastModifiedForDatum d c1;
          (t3, c3) = getLastModifiedForDatum d c2
      in (\<lparr>nodeLookup = js_put (datum_id d) (Url ([Loc u, Lastmod t1] @ image_part env d)) (nodeLookup g),
           nodeTimeLookup = js_put (datum_id d) t3 (nodeTimeLookup g),
           siteMapContent = None,
           lastModified = max (lastModified g) t2,
           maxNodes = maxNodes g\<rparr>, c3))"
  by (cases g)
     (simp add: addUrl_def createUrlNodeFromDatum_def updateLookups_def updateLastModified_def
       image_part_def Let_def max_def split: prod.splits option.splits)

lemma removeUrl_eq:
  "removeUrl u d (g, c) =
     (\<lparr>nodeLookup = js_delete (datum_id d) (nodeLookup g),
       nodeTimeLookup = js_delete (datum_id d) (nodeTimeLookup g),
       siteMapContent = None,
       lastModified = fst (Date_now c),
       maxNodes = maxNodes g\<rparr>, snd (Date_now c))"
  by (cases g) (simp add: removeUrl_def removeFromLookups_def Let_def split: prod.splits)

lemma generateXmlFromNodes_cong:
  "nodeLookup g = nodeLookup h \<Longrightarrow> nodeTimeLookup g = nodeTimeLookup h \<Longrightarrow> maxNodes g = maxNodes h
   \<Longrightarrow> generateXmlFromNodes env g = generateXmlFromNodes env h"
  by (cases g; cases h)
     (simp add: generateXmlFromNodes_def sitemapData_def nodesToProcess_def nodeTriples_def
       nodeTime_def Let_def)

lemma index_ok_new: "index_ok env new_generator"
  by (simp add: index_ok_def new_generator_def js_keys_def truthy_str_def)

lemma index_ok_addUrl: "index_ok env g \<Longrightarrow> index_ok env (fst (addUrl env u d (g, c)))"
  by (auto simp: index_ok_def addUrl_eq Let_def truthy_str_def js_put_distinct
      intro: js_keys_put_cong split: prod.splits)

lemma index_ok_removeUrl: "index_ok env g \<Longrightarrow> index_ok env (fst (removeUrl u d (g, c)))"
  by (auto simp: index_ok_def removeUrl_eq truthy_str_def js_keys_delete distinct_removeAll)

lemma index_ok_reset: "index_ok env g \<Longrightarrow> index_ok env (reset g)"
  by (simp add: index_ok_def reset_def truthy_str_def js_keys_def)

lemma index_ok_getXml: "index_ok env g \<Longrightarrow> index_ok env (snd (getXml env g))"
  by (auto simp: index_ok_def getXml_def Let_def intro: generateXmlFromNodes_cong)

lemma index_ok_perform: "index_ok env (fst s) \<Longrightarrow> index_ok env (fst (perform env s call))"
  by (cases call; cases s)
     (simp_all add: index_ok_addUrl index_ok_removeUrl index_ok_reset index_ok_getXml)

lemma index_ok_run: "index_ok env (fst s) \<Longrightarrow> index_ok env (fst (run env calls s))"
  unfolding run_def
  by (induction calls arbitrary: s) (simp_all add: index_ok_perform)

lemma getXml_index_ok: "index_ok env g \<Longrightarrow> fst (getXml env g) = generateXmlFromNodes env g"
  by (auto simp: index_ok_def getXml_def Let_def str_of_def)

lemma Date_now_mono: "now c \<le> fst (Date_now c)"
  by (simp add: Date_now_def split: list.splits)

lemma Date_now_now: "now (snd (Date_now c)) = fst (Date_now c)"
  by (simp add: Date_now_def split: list.splits)

lemma Date_now_again: "fst (Date_now c) \<le> fst (Date_now (snd (Date_now c)))"
  using Date_now_mono [of "snd (Date_now c)"] by (simp add: Date_now_now)

lemma getLastModifiedForDatum_none:
  "\<not> truthy_num (updated_at d) \<Longrightarrow> \<not> truthy_num (published_at d) \<Longrightarrow> \<not> truthy_num (created_at d)
   \<Longrightarrow> getLastModifiedForDatum d c = Date_now c"
  by (simp add: getLastModifiedForDatum_def or_number_def)

subsection \<open>Reset and reading\<close>

text \<open>
  C9. For every generator, \<^verbatim>\<open>reset()\<close> empties the node object, the timestamp object and
  the cached document, and leaves \<^verbatim>\<open>lastModified\<close> and \<^verbatim>\<open>maxNodes\<close> as they were.
\<close>

theorem reset_clears_lookups_and_cache:
  "nodeLookup (reset g) = [] \<and> nodeTimeLookup (reset g) = [] \<and> siteMapContent (reset g) = None \<and>
   js_keys (nodeLookup (reset g)) = [] \<and> js_keys (nodeTimeLookup (reset g)) = [] \<and>
   lastModified (reset g) = lastModified g \<and> maxNodes (reset g) = maxNodes g"
  by (simp add: reset_def js_keys_def)

text \<open>
  C10. For every generator, \<^verbatim>\<open>getXml()\<close> changes nothing but the cached document: the node
  object, the timestamp object, \<^verbatim>\<open>lastModified\<close> and \<^verbatim>\<open>maxNodes\<close> are the same before
  and after the call.
\<close>

theorem getXml_changes_cache_only:
  "nodeLookup (snd (getXml env g)) = nodeLookup g \<and>
   nodeTimeLookup (snd (getXml env g)) = nodeTimeLookup g \<and>
   lastModified (snd (getXml env g)) = lastModified g \<and>
   maxNodes (snd (getXml env g)) = maxNodes g \<and>
   snd (getXml env g) = g\<lparr>siteMapContent := siteMapContent (snd (getXml env g))\<rparr>"
  by (simp add: getXml_def Let_def)

text \<open>
  C1. For every generator, \<^verbatim>\<open>getXml()\<close> answers from the cache when the cache is truthy:
  it returns the cached string and changes nothing, and renders only otherwise, caching
  what it rendered. So a second \<^verbatim>\<open>getXml()\<close> with no mutating call in between returns the
  string of the first and leaves the generator as the first left it; when that string is
  not empty the second call returns it from the cache, whatever the collaborators would
  render by then. \<^verbatim>\<open>addUrl\<close> and \<^verbatim>\<open>removeUrl\<close> empty the cache, so the \<^verbatim>\<open>getXml()\<close> after one
  of them renders the contents as they are then and caches that; and after any sequence
  of calls on a new generator \<^verbatim>\<open>getXml()\<close> returns the rendering of the current contents.
\<close>

theorem getXml_cached_until_mutation:
  "(truthy_str (siteMapContent g) \<longrightarrow> getXml env g = (str_of (siteMapContent g), g)) \<and>
   (\<not> truthy_str (siteMapContent g) \<longrightarrow>
      getXml env g =
        (generateXmlFromNodes env g, g\<lparr>siteMapContent := Some (generateXmlFromNodes env g)\<rparr>)) \<and>
   getXml env (snd (getXml env g)) = (fst (getXml env g), snd (getXml env g)) \<and>
   siteMapContent (snd (getXml env g)) = Some (fst (getXml env g)) \<and>
   (fst (getXml env g) \<noteq> [] \<longrightarrow>
      getXml env' (snd (getXml env g)) = (fst (getXml env g), snd (getXml env g))) \<and>
   siteMapContent (fst (addUrl env u d (snd (getXml env g), c))) = None \<and>
   siteMapContent (fst (removeUrl u d (snd (getXml env g), c))) = None \<and>
   getXml env (fst (addUrl env u d (snd (getXml env g), c))) =
     (generateXmlFromNodes env (fst (addUrl env u d (snd (getXml env g), c))),
      (fst (addUrl env u d (snd (getXml env g), c)))
        \<lparr>siteMapContent :=
           Some (generateXmlFromNodes env (fst (addUrl env u d (snd (getXml env g), c))))\<rparr>) \<and>
   getXml env (fst (removeUrl u d (snd (getXml env g), c))) =
     (generateXmlFromNodes env (fst (removeUrl u d (snd (getXml env g), c))),
      (fst (removeUrl u d (snd (getXml env g), c)))
        \<lparr>siteMapContent :=
           Some (generateXmlFromNodes env (fst (removeUrl u d (snd (getXml env g), c))))\<rparr>) \<and>
   fst (getXml env (fst (run env calls (new_generator, c)))) =
     generateXmlFromNodes env (fst (run env calls (new_generator, c)))"
proof -
  have hit: "getXml e h = (str_of (siteMapContent h), h)" if "truthy_str (siteMapContent h)" for e h
    using that by (simp add: getXml_def)
  have miss: "getXml env h =
      (generateXmlFromNodes env h, h\<lparr>siteMapContent := Some (generateXmlFromNodes env h)\<rparr>)"
    if "\<not> truthy_str (siteMapContent h)" for h
    using that by (simp add: getXml_def Let_def)
  have kept: "siteMapContent (snd (getXml env g)) = Some (fst (getXml env g))"
    by (cases "siteMapContent g") (simp_all add: getXml_def Let_def truthy_str_def str_of_def)
  have cached: "getXml e (snd (getXml env g)) = (fst (getXml env g), snd (getXml env g))"
    if "fst (getXml env g) \<noteq> []" for e
  proof -
    from that kept have "truthy_str (siteMapContent (snd (getXml env g)))"
      by (simp add: truthy_str_def)
    from hit [OF this] kept show ?thesis
      by (simp add: str_of_def)
  qed
  have again: "getXml env (snd (getXml env g)) = (fst (getXml env g), snd (getXml env g))"
  proof (cases "fst (getXml env g) = []")
    case False
    then show ?thesis by (rule cached)
  next
    case True
    have cold: "\<not> truthy_str (siteMapContent g)"
    proof
      assume warm: "truthy_str (siteMapContent g)"
      from hit [OF warm, of env] True have "str_of (siteMapContent g) = []"
        by simp
      with warm show False
        by (cases "siteMapContent g") (simp_all add: truthy_str_def str_of_def)
    qed
    have "generateXmlFromNodes env (g\<lparr>siteMapContent := Some (generateXmlFromNodes env g)\<rparr>)
        = generateXmlFromNodes env g"
      by (rule generateXmlFromNodes_cong) simp_all
    with cold True show ?thesis
      by (simp add: getXml_def Let_def truthy_str_def)
  qed
  have add_none: "siteMapContent (fst (addUrl env u d (h, c))) = None" for h
    by (simp add: addUrl_eq Let_def split: prod.splits)
  have rem_none: "siteMapContent (fst (removeUrl u d (h, c))) = None" for h
    by (simp add: removeUrl_eq)
  have fresh: "getXml env h =
      (generateXmlFromNodes env h, h\<lparr>siteMapContent := Some (generateXmlFromNodes env h)\<rparr>)"
    if "siteMapContent h = None" for h
    using that by (intro miss) (simp add: truthy_str_def)
  have "index_ok env (fst (run env calls (new_generator, c)))"
    by (rule index_ok_run) (simp add: index_ok_new)
  then have reach: "fst (getXml env (fst (run env calls (new_generator, c)))) =
     generateXmlFromNodes env (fst (run env calls (new_generator, c)))"
    by (rule getXml_index_ok)
  from hit [of g env] miss [of g] again kept cached [of env'] add_none rem_none
    fresh [OF add_none] fresh [OF rem_none] reach
  show ?thesis
    by (intro conjI impI)
qed

text \<open>
  A generator whose cache holds a string that is not the rendering of its contents
  returns that string. Add a record and read, then read with another declaration: the
  cached document comes back. Remove the record and read again: the document has no entry.
\<close>

theorem getXml_cached_until_mutation_witness:
  "getXml sample_env (new_generator\<lparr>siteMapContent := Some ''CACHED''\<rparr>)
     = (''CACHED'', new_generator\<lparr>siteMapContent := Some ''CACHED''\<rparr>) \<and>
   fst (getXml sample_env (fst (run sample_env
       [AddUrl ''/a'' (record_at ''1'' (Some 100))] (new_generator, clock_at 1000 [5, 7]))))
     = ''<?xml?><urlset><url><loc>/a</loc></url></urlset>'' \<and>
   fst (getXml (sample_env\<lparr>getDeclarations := ''<?other?>''\<rparr>)
       (snd (getXml sample_env (fst (run sample_env
          [AddUrl ''/a'' (record_at ''1'' (Some 100))] (new_generator, clock_at 1000 [5, 7]))))))
     = ''<?xml?><urlset><url><loc>/a</loc></url></urlset>'' \<and>
   fst (getXml sample_env (fst (removeUrl ''/a'' (record_at ''1'' (Some 100))
       (snd (getXml sample_env (fst (run sample_env
          [AddUrl ''/a'' (record_at ''1'' (Some 100))] (new_generator, clock_at 1000 [5, 7])))),
        clock_at 1000 [5, 7]))))
     = ''<?xml?><urlset></urlset>''"
  using
    getXml_cached_until_mutation [of "new_generator\<lparr>siteMapContent := Some ''CACHED''\<rparr>"
      sample_env sample_env "''/a''" "record_at ''1'' (Some 100)" "clock_at 1000 [5, 7]" "[]"]
    getXml_cached_until_mutation [of
      "fst (run sample_env [AddUrl ''/a'' (record_at ''1'' (Some 100))]
         (new_generator, clock_at 1000 [5, 7]))"
      sample_env "sample_env\<lparr>getDeclarations := ''<?other?>''\<rparr>"
      "''/a''" "record_at ''1'' (Some 100)" "clock_at 1000 [5, 7]" "[]"]
  by code_simp

subsection \<open>The two lookups\<close>

text \<open>
  C4. After every sequence of \<^verbatim>\<open>addUrl\<close>, \<^verbatim>\<open>removeUrl\<close>, \<^verbatim>\<open>reset\<close> (and \<^verbatim>\<open>getXml\<close>) calls
  on a new generator, \<^verbatim>\<open>nodeLookup\<close> and \<^verbatim>\<open>nodeTimeLookup\<close> have the same key set, and
  even enumerate their keys in the same order. The sequence is arbitrary, so this holds
  after each of its calls.
\<close>

theorem lookups_have_the_same_keys:
  "set (js_keys (nodeLookup (fst (run env calls (new_generator, c))))) =
   set (js_keys (nodeTimeLookup (fst (run env calls (new_generator, c))))) \<and>
   js_keys (nodeLookup (fst (run env calls (new_generator, c)))) =
   js_keys (nodeTimeLookup (fst (run env calls (new_generator, c))))"
proof -
  have "index_ok env (fst (run env calls (new_generator, c)))"
    by (rule index_ok_run) (simp add: index_ok_new)
  then show ?thesis
    by (simp add: index_ok_def)
qed

text \<open>
  C8. For every record, \<^verbatim>\<open>removeUrl\<close> leaves no entry for the record's id in either
  lookup and every other entry as it was; when the id is absent the lookups are
  unchanged (the method has no failing branch); in both cases the cached document is
  emptied and \<^verbatim>\<open>lastModified\<close> becomes the reading of the clock.
\<close>

theorem removeUrl_deletes_and_stamps:
  "js_get (nodeLookup (fst (removeUrl u d (g, c)))) (datum_id d) = None \<and>
   js_get (nodeTimeLookup (fst (removeUrl u d (g, c)))) (datum_id d) = None \<and>
   (k \<noteq> datum_id d \<longrightarrow>
      js_get (nodeLookup (fst (removeUrl u d (g, c)))) k = js_get (nodeLookup g) k \<and>
      js_get (nodeTimeLookup (fst (removeUrl u d (g, c)))) k = js_get (nodeTimeLookup g) k) \<and>
   (datum_id d \<notin> set (js_keys (nodeLookup g)) \<longrightarrow>
      nodeLookup (fst (removeUrl u d (g, c))) = nodeLookup g) \<and>
   (datum_id d \<notin> set (js_keys (nodeTimeLookup g)) \<longrightarrow>
      nodeTimeLookup (fst (removeUrl u d (g, c))) = nodeTimeLookup g) \<and>
   siteMapContent (fst (removeUrl u d (g, c))) = None \<and>
   lastModified (fst (removeUrl u d (g, c))) = fst (Date_now c) \<and>
   now c \<le> fst (Date_now c) \<and>
   maxNodes (fst (removeUrl u d (g, c))) = maxNodes g \<and>
   snd (removeUrl u d (g, c)) = snd (Date_now c)"
  by (simp add: removeUrl_eq js_get_delete js_delete_absent Date_now_def split: list.splits)

theorem removeUrl_deletes_and_stamps_witness:
  "js_keys (nodeLookup (fst (run sample_env
       [AddUrl ''/a'' (record_at ''1'' (Some 100)), AddUrl ''/b'' (record_at ''2'' (Some 200))]
       (new_generator, clock_at 1000 [5, 7])))) = [''1'', ''2''] \<and>
   js_keys (nodeLookup (fst (run sample_env
       [AddUrl ''/a'' (record_at ''1'' (Some 100)), AddUrl ''/b'' (record_at ''2'' (Some 200)),
        RemoveUrl ''/a'' (record_at ''1'' (Some 100))]
       (new_generator, clock_at 1000 [5, 7])))) = [''2''] \<and>
   lastModified (fst (run sample_env
       [AddUrl ''/a'' (record_at ''1'' (Some 100)), AddUrl ''/b'' (record_at ''2'' (Some 200)),
        RemoveUrl ''/a'' (record_at ''1'' (Some 100))]
       (new_generator, clock_at 1000 [5, 7]))) = 1005"
  using removeUrl_deletes_and_stamps [of "''/a''" "record_at ''1'' (Some 100)"
      "fst (run sample_env
       [AddUrl ''/a'' (record_at ''1'' (Some 100)), AddUrl ''/b'' (record_at ''2'' (Some 200))]
       (new_generator, clock_at 1000 [5, 7]))" "clock_at 1000 [5, 7]" "''2''"]
  by code_simp

subsection \<open>Node synthesis\<close>

text \<open>
  C6. For every record, \<^verbatim>\<open>getLastModifiedForDatum\<close> returns the first truthy of
  \<^verbatim>\<open>updated_at\<close>, \<^verbatim>\<open>published_at\<close>, \<^verbatim>\<open>created_at\<close> without reading the clock; for a record
  with none of them it returns a reading of the clock, and the \<^verbatim>\<open>lastmod\<close> of the node
  that \<^verbatim>\<open>addUrl\<close> stores, as well as the timestamp it stores, is a reading taken at or
  after the instant of the call.
\<close>

theorem lastmod_first_nonempty_or_clock:
  "(truthy_num (updated_at d) \<longrightarrow>
      getLastModifiedForDatum d c = (num_of (updated_at d), c)) \<and>
   (\<not> truthy_num (updated_at d) \<and> truthy_num (published_at d) \<longrightarrow>
      getLastModifiedForDatum d c = (num_of (published_at d), c)) \<and>
   (\<not> truthy_num (updated_at d) \<and> \<not> truthy_num (published_at d) \<and> truthy_num (created_at d) \<longrightarrow>
      getLastModifiedForDatum d c = (num_of (created_at d), c)) \<and>
   (\<not> truthy_num (updated_at d) \<and> \<not> truthy_num (published_at d) \<and> \<not> truthy_num (created_at d) \<longrightarrow>
      getLastModifiedForDatum d c = Date_now c \<and>
      now c \<le> fst (Date_now c) \<and>
      js_get (nodeLookup (fst (addUrl env u d (g, c)))) (datum_id d) =
        Some (Url ([Loc u, Lastmod (fst (Date_now c))] @ image_part env d)) \<and>
      js_get (nodeTimeLookup (fst (addUrl env u d (g, c)))) (datum_id d) =
        Some (fst (Date_now (snd (Date_now (snd (Date_now c)))))) \<and>
      now c \<le> fst (Date_now (snd (Date_now (snd (Date_now c))))))"
proof -
  have none: "js_get (nodeLookup (fst (addUrl env u d (g, c)))) (datum_id d) =
        Some (Url ([Loc u, Lastmod (fst (Date_now c))] @ image_part env d)) \<and>
      js_get (nodeTimeLookup (fst (addUrl env u d (g, c)))) (datum_id d) =
        Some (fst (Date_now (snd (Date_now (snd (Date_now c)))))) \<and>
      now c \<le> fst (Date_now (snd (Date_now (snd (Date_now c)))))"
    if "\<not> truthy_num (updated_at d)" "\<not> truthy_num (published_at d)" "\<not> truthy_num (created_at d)"
  proof -
    have lm: "getLastModifiedForDatum d c' = Date_now c'" for c'
      using that by (rule getLastModifiedForDatum_none)
    have "now c \<le> fst (Date_now c)"
      by (rule Date_now_mono)
    also have "\<dots> \<le> fst (Date_now (snd (Date_now c)))"
      by (rule Date_now_again)
    also have "\<dots> \<le> fst (Date_now (snd (Date_now (snd (Date_now c)))))"
      by (rule Date_now_again)
    finally show ?thesis
      by (simp add: addUrl_eq lm js_get_put Let_def case_prod_beta)
  qed
  show ?thesis
    using none
    by (auto simp: getLastModifiedForDatum_def or_number_def Date_now_mono)
qed

theorem lastmod_first_nonempty_or_clock_witness:
  "getLastModifiedForDatum (record_at ''1'' (Some 100)) (clock_at 1000 [5, 0, 2])
     = (100, clock_at 1000 [5, 0, 2]) \<and>
   getLastModifiedForDatum ((record_at ''1'' (Some 0))\<lparr>published_at := Some 50, created_at := Some 20\<rparr>)
       (clock_at 1000 [5, 0, 2])
     = (50, clock_at 1000 [5, 0, 2]) \<and>
   getLastModifiedForDatum ((record_at ''1'' None)\<lparr>created_at := Some 20\<rparr>) (clock_at 1000 [5, 0, 2])
     = (20, clock_at 1000 [5, 0, 2]) \<and>
   getLastModifiedForDatum (record_at ''1'' None) (clock_at 1000 [5, 0, 2])
     = (1005, clock_at 1005 [0, 2]) \<and>
   js_get (nodeLookup (fst (addUrl sample_env ''/a'' (record_at ''1'' None)
       (new_generator, clock_at 1000 [5, 0, 2])))) ''1''
     = Some (Url [Loc ''/a'', Lastmod 1005]) \<and>
   js_get (nodeTimeLookup (fst (addUrl sample_env ''/a'' (record_at ''1'' None)
       (new_generator, clock_at 1000 [5, 0, 2])))) ''1''
     = Some 1007"
  using
    lastmod_first_nonempty_or_clock [of "record_at ''1'' (Some 100)" "clock_at 1000 [5, 0, 2]"
      sample_env "''/a''" new_generator]
    lastmod_first_nonempty_or_clock [of
      "(record_at ''1'' (Some 0))\<lparr>published_at := Some 50, created_at := Some 20\<rparr>"
      "clock_at 1000 [5, 0, 2]" sample_env "''/a''" new_generator]
    lastmod_first_nonempty_or_clock [of "(record_at ''1'' None)\<lparr>created_at := Some 20\<rparr>"
      "clock_at 1000 [5, 0, 2]" sample_env "''/a''" new_generator]
    lastmod_first_nonempty_or_clock [of "record_at ''1'' None" "clock_at 1000 [5, 0, 2]"
      sample_env "''/a''" new_generator]
  by code_simp

text \<open>
  C7. For every record, the node has no \<^verbatim>\<open>image:image\<close> fragment when none of
  \<^verbatim>\<open>cover_image\<close>, \<^verbatim>\<open>profile_image\<close>, \<^verbatim>\<open>feature_image\<close> is present or when the resolver
  returns a falsy result for the first present one; otherwise it has exactly one, with
  \<^verbatim>\<open>image:loc\<close> the resolved URL and \<^verbatim>\<open>image:caption\<close> its \<^verbatim>\<open>path.basename\<close>.
\<close>

theorem image_fragment_of_first_present_image:
  "map_option image_fragments (fst (createUrlNodeFromDatum env u d c)) =
     Some
       (case first_present [cover_image d, profile_image d, feature_image d] of
          None \<Rightarrow> []
        | Some r \<Rightarrow>
            if truthy_str (urlFor_image env r)
            then [Image_image [Image_loc (str_of (urlFor_image env r)),
                               Image_caption (path_basename env (str_of (urlFor_image env r)))]]
            else [])"
  by (auto simp: createUrlNodeFromDatum_def createImageNodeFromDatum_def image_fragments_def
      first_present_def or_string_def validateImageUrl_def truthy_str_def str_of_def Let_def
      split: prod.splits option.splits)

theorem image_fragment_of_first_present_image_witness:
  "map_option image_fragments (fst (createUrlNodeFromDatum sample_env ''/a''
       ((record_at ''1'' None)\<lparr>cover_image := Some ''img.jpg''\<rparr>) (clock_at 1000 [])))
     = Some [Image_image [Image_loc ''https://site/content/images/img.jpg'',
                          Image_caption ''img.jpg'']] \<and>
   map_option image_fragments (fst (createUrlNodeFromDatum sample_env ''/a''
       ((record_at ''1'' None)\<lparr>cover_image := Some [], feature_image := Some ''f.png''\<rparr>)
       (clock_at 1000 [])))
     = Some [Image_image [Image_loc ''https://site/content/images/f.png'',
                          Image_caption ''f.png'']] \<and>
   map_option image_fragments (fst (createUrlNodeFromDatum sample_env ''/a''
       ((record_at ''1'' None)\<lparr>profile_image := Some ''/''\<rparr>) (clock_at 1000 [])))
     = Some [] \<and>
   map_option image_fragments (fst (createUrlNodeFromDatum sample_env ''/a''
       (record_at ''1'' None) (clock_at 1000 [])))
     = Some []"
  using
    image_fragment_of_first_present_image [of sample_env "''/a''"
      "(record_at ''1'' None)\<lparr>cover_image := Some ''img.jpg''\<rparr>" "clock_at 1000 []"]
    image_fragment_of_first_present_image [of sample_env "''/a''"
      "(record_at ''1'' None)\<lparr>cover_image := Some [], feature_image := Some ''f.png''\<rparr>"
      "clock_at 1000 []"]
    image_fragment_of_first_present_image [of sample_env "''/a''"
      "(record_at ''1'' None)\<lparr>profile_image := Some ''/''\<rparr>" "clock_at 1000 []"]
    image_fragment_of_first_present_image [of sample_env "''/a''"
      "record_at ''1'' None" "clock_at 1000 []"]
  by code_simp

subsection \<open>Rendering: order and cap\<close>

lemma url_elements_sitemapData:
  "url_elements (sitemapData g) = map (\<lambda>e. snd (snd e)) (nodesToProcess g)"
  by (simp add: url_elements_def sitemapData_def XMLNS_DECLS_def comp_def)

lemma num_of_or_zero: "num_of (or_number (Some t) (Some 0)) = t"
  by (simp add: num_of_def or_number_def truthy_num_def)

lemma nodeTime_stored: "js_get (nodeTimeLookup g) k = Some t \<Longrightarrow> nodeTime g k = t"
  by (simp add: nodeTime_def num_of_or_zero)

lemma js_get_entry: "distinct (js_keys obj) \<Longrightarrow> (k, v) \<in> set obj \<Longrightarrow> js_get obj k = Some v"
  by (simp add: js_get_def js_keys_def)

lemma nodeTime_keys:
  assumes "distinct (js_keys (nodeTimeLookup g))"
  shows "map (nodeTime g) (js_keys (nodeTimeLookup g)) = map snd (nodeTimeLookup g)"
proof -
  have "nodeTime g (fst p) = snd p" if "p \<in> set (nodeTimeLookup g)" for p
    using that assms js_get_entry [of "nodeTimeLookup g" "fst p" "snd p"]
    by (simp add: nodeTime_stored)
  then show ?thesis
    by (simp add: js_keys_def)
qed

lemma nodesToProcess_uncapped:
  "length (js_keys (nodeLookup g)) \<le> maxNodes g \<Longrightarrow>
   nodesToProcess g = sort_key (\<lambda>e. fst (snd e)) (nodeTriples g)"
  by (simp add: nodesToProcess_def nodeTriples_def js_keys_def Let_def)

lemma nodeTriples_keys: "map fst (nodeTriples g) = js_keys (nodeLookup g)"
  by (simp add: nodeTriples_def js_keys_def case_prod_beta comp_def)

lemma nodeTriples_ts:
  "map (\<lambda>e. fst (snd e)) (nodeTriples g) = map (\<lambda>k. - nodeTime g k) (js_keys (nodeLookup g))"
  by (simp add: nodeTriples_def js_keys_def case_prod_beta comp_def)

lemma nodeTriples_entry:
  "e \<in> set (nodeTriples g) \<Longrightarrow>
   (fst e, snd (snd e)) \<in> set (nodeLookup g) \<and> fst (snd e) = - nodeTime g (fst e)"
  by (auto simp: nodeTriples_def)

lemma distinct_map_uminus: "distinct (xs :: int list) \<Longrightarrow> distinct (map uminus xs)"
  by (simp add: distinct_map inj_on_def)

lemma distinct_map_sort_key: "distinct (map f (sort_key k xs)) = distinct (map f xs)"
proof -
  have "mset (map f (sort_key k xs)) = mset (map f xs)"
    by simp
  then show ?thesis
    by (rule mset_eq_imp_distinct_iff)
qed

text \<open>
  C2. For every generator that calls on a new generator produce, whose stored timestamps
  are pairwise distinct and whose records are at most \<^verbatim>\<open>maxNodes\<close>: the document of
  \<^verbatim>\<open>getXml()\<close> is the rendering of \<open>sitemapData\<close>, whose \<^verbatim>\<open>url\<close> elements are the nodes of all
  the ids, each once, in an order in which the stored timestamps strictly descend.
\<close>

theorem url_elements_newest_first:
  assumes "g = fst (run env calls (new_generator, c))"
    and "distinct (map snd (nodeTimeLookup g))"
    and "length (js_keys (nodeLookup g)) \<le> maxNodes g"
  shows "fst (getXml env g) =
           transformReadyToAbsolute env (getDeclarations env @ xml env (sitemapData g)) \<and>
         (\<exists>ks ts. set ks = set (js_keys (nodeLookup g)) \<and> distinct ks \<and>
            map Some (url_elements (sitemapData g)) = map (js_get (nodeLookup g)) ks \<and>
            map Some ts = map (js_get (nodeTimeLookup g)) ks \<and>
            sorted_wrt (\<lambda>a b. a > b) ts)"
proof -
  let ?E = "nodesToProcess g"
  let ?ts = "\<lambda>e::string \<times> int \<times> node. fst (snd e)"
  have ok: "index_ok env g"
    unfolding assms(1) by (rule index_ok_run) (simp add: index_ok_new)
  then have dist: "distinct (js_keys (nodeLookup g))"
    and same: "js_keys (nodeLookup g) = js_keys (nodeTimeLookup g)"
    unfolding index_ok_def by blast+
  have E: "?E = sort_key ?ts (nodeTriples g)"
    using assms(3) by (rule nodesToProcess_uncapped)
  have in_E: "e \<in> set ?E \<Longrightarrow> e \<in> set (nodeTriples g)" for e
    by (simp add: E)
  have "set (map fst ?E) = set (map fst (nodeTriples g))"
    by (simp add: E)
  then have keys_set: "set (map fst ?E) = set (js_keys (nodeLookup g))"
    by (simp only: nodeTriples_keys)
  have "distinct (map fst (nodeTriples g))"
    by (simp add: nodeTriples_keys dist)
  then have keys_dist: "distinct (map fst ?E)"
    by (simp add: E distinct_map_sort_key)
  have node_of: "js_get (nodeLookup g) (fst e) = Some (snd (snd e))" if "e \<in> set ?E" for e
    using nodeTriples_entry [OF in_E [OF that]] dist by (simp add: js_get_entry)
  have time_of: "js_get (nodeTimeLookup g) (fst e) = Some (- ?ts e)" if "e \<in> set ?E" for e
  proof -
    have "fst e \<in> set (js_keys (nodeTimeLookup g))"
      using that keys_set same by auto
    then obtain t where t: "js_get (nodeTimeLookup g) (fst e) = Some t"
      by (auto simp: js_keys_def js_get_def weak_map_of_SomeI dest!: weak_map_of_SomeI)
    with nodeTriples_entry [OF in_E [OF that]] show ?thesis
      by (simp add: nodeTime_stored)
  qed
  have "map ?ts (nodeTriples g) = map uminus (map snd (nodeTimeLookup g))"
    using dist same by (simp add: nodeTriples_ts nodeTime_keys [symmetric] comp_def)
  moreover have "distinct (map uminus (map snd (nodeTimeLookup g)))"
    using assms(2) by (rule distinct_map_uminus)
  ultimately have "distinct (map ?ts ?E)"
    by (simp add: E distinct_map_sort_key)
  moreover have "sorted (map ?ts ?E)"
    by (simp add: E)
  ultimately have "sorted_wrt (<) (map ?ts ?E)"
    by (simp add: strict_sorted_iff)
  then have desc: "sorted_wrt (\<lambda>a b. a > b) (map (\<lambda>e. - ?ts e) ?E)"
    by (simp add: sorted_wrt_map)
  have nodes: "map Some (url_elements (sitemapData g)) = map (js_get (nodeLookup g)) (map fst ?E)"
    by (simp add: url_elements_sitemapData node_of)
  have times: "map Some (map (\<lambda>e. - ?ts e) ?E) = map (js_get (nodeTimeLookup g)) (map fst ?E)"
    by (simp add: time_of)
  have "fst (getXml env g) = generateXmlFromNodes env g"
    using ok by (rule getXml_index_ok)
  then have doc: "fst (getXml env g) =
      transformReadyToAbsolute env (getDeclarations env @ xml env (sitemapData g))"
    by (simp add: generateXmlFromNodes_def)
  from keys_set keys_dist nodes times desc doc show ?thesis
    by blast
qed

text \<open>
  Four records, with ids that enumerate as \<^verbatim>\<open>0, 1, 2, c\<close>: the document lists them newest
  first.
\<close>

theorem url_elements_newest_first_witness:
  "distinct (map snd (nodeTimeLookup (fst (run sample_env
       [AddUrl ''/a'' (record_at ''1'' (Some 100)), AddUrl ''/b'' (record_at ''2'' (Some 200)),
        AddUrl ''/c'' (record_at ''c'' (Some 300)), AddUrl ''/d'' (record_at ''0'' (Some 150))]
       (new_generator, clock_at 1000 []))))) \<and>
   js_keys (nodeLookup (fst (run sample_env
       [AddUrl ''/a'' (record_at ''1'' (Some 100)), AddUrl ''/b'' (record_at ''2'' (Some 200)),
        AddUrl ''/c'' (record_at ''c'' (Some 300)), AddUrl ''/d'' (record_at ''0'' (Some 150))]
       (new_generator, clock_at 1000 [])))) = [''0'', ''1'', ''2'', ''c''] \<and>
   url_elements (sitemapData (fst (run sample_env
       [AddUrl ''/a'' (record_at ''1'' (Some 100)), AddUrl ''/b'' (record_at ''2'' (Some 200)),
        AddUrl ''/c'' (record_at ''c'' (Some 300)), AddUrl ''/d'' (record_at ''0'' (Some 150))]
       (new_generator, clock_at 1000 [])))) =
     [Url [Loc ''/c'', Lastmod 300], Url [Loc ''/b'', Lastmod 200],
      Url [Loc ''/d'', Lastmod 150], Url [Loc ''/a'', Lastmod 100]] \<and>
   fst (getXml sample_env (fst (run sample_env
       [AddUrl ''/a'' (record_at ''1'' (Some 100)), AddUrl ''/b'' (record_at ''2'' (Some 200)),
        AddUrl ''/c'' (record_at ''c'' (Some 300)), AddUrl ''/d'' (record_at ''0'' (Some 150))]
       (new_generator, clock_at 1000 [])))) =
     transformReadyToAbsolute sample_env (getDeclarations sample_env @ xml sample_env
       (sitemapData (fst (run sample_env
       [AddUrl ''/a'' (record_at ''1'' (Some 100)), AddUrl ''/b'' (record_at ''2'' (Some 200)),
        AddUrl ''/c'' (record_at ''c'' (Some 300)), AddUrl ''/d'' (record_at ''0'' (Some 150))]
       (new_generator, clock_at 1000 [])))))"
proof -
  let ?g = "fst (run sample_env
       [AddUrl ''/a'' (record_at ''1'' (Some 100)), AddUrl ''/b'' (record_at ''2'' (Some 200)),
        AddUrl ''/c'' (record_at ''c'' (Some 300)), AddUrl ''/d'' (record_at ''0'' (Some 150))]
       (new_generator, clock_at 1000 []))"
  have stamps: "distinct (map snd (nodeTimeLookup ?g))"
    by code_simp
  have few: "length (js_keys (nodeLookup ?g)) \<le> maxNodes ?g"
    by code_simp
  have keys: "js_keys (nodeLookup ?g) = [''0'', ''1'', ''2'', ''c'']"
    by code_simp
  have urls: "url_elements (sitemapData ?g) =
     [Url [Loc ''/c'', Lastmod 300], Url [Loc ''/b'', Lastmod 200],
      Url [Loc ''/d'', Lastmod 150], Url [Loc ''/a'', Lastmod 100]]"
    by code_simp
  from url_elements_newest_first [OF refl stamps few]
  have "fst (getXml sample_env ?g) =
      transformReadyToAbsolute sample_env (getDeclarations sample_env @ xml sample_env (sitemapData ?g))"
    by (rule conjunct1)
  with stamps keys urls show ?thesis
    by (intro conjI)
qed

text \<open>
  C3. For every generator with a nonzero \<^verbatim>\<open>maxNodes\<close> (it is 50000) and more records than
  that, the rendered document has exactly \<^verbatim>\<open>maxNodes\<close> \<^verbatim>\<open>url\<close> elements, and they are the
  nodes of the first \<^verbatim>\<open>maxNodes\<close> entries of the node object in its enumeration order: the
  cut comes before the sort.
\<close>

theorem cap_keeps_first_of_enumeration:
  assumes "maxNodes g \<noteq> 0"
    and "maxNodes g < length (js_keys (nodeLookup g))"
  shows "length (url_elements (sitemapData g)) = maxNodes g \<and>
         mset (url_elements (sitemapData g)) = mset (map snd (take (maxNodes g) (nodeLookup g))) \<and>
         mset (map fst (nodesToProcess g)) = mset (take (maxNodes g) (js_keys (nodeLookup g))) \<and>
         nodesToProcess g = sort_key (\<lambda>e. fst (snd e)) (take (maxNodes g) (nodeTriples g)) \<and>
         generateXmlFromNodes env g =
           transformReadyToAbsolute env (getDeclarations env @ xml env (sitemapData g))"
proof -
  let ?n = "maxNodes g"
  have E: "nodesToProcess g = sort_key (\<lambda>e. fst (snd e)) (take ?n (nodeTriples g))"
    using assms(1) by (simp add: nodesToProcess_def Let_def)
  have len: "length (nodeTriples g) = length (js_keys (nodeLookup g))"
    by (simp add: nodeTriples_def js_keys_def)
  have "length (nodesToProcess g) = ?n"
    using assms(2) by (simp add: E len)
  then have count: "length (url_elements (sitemapData g)) = ?n"
    by (simp add: url_elements_sitemapData)
  have "mset (map (\<lambda>e. snd (snd e)) (nodesToProcess g))
      = mset (map (\<lambda>e. snd (snd e)) (take ?n (nodeTriples g)))"
    by (simp add: E)
  also have "map (\<lambda>e. snd (snd e)) (take ?n (nodeTriples g)) = map snd (take ?n (nodeLookup g))"
    by (simp add: nodeTriples_def take_map case_prod_beta comp_def)
  finally have nodes: "mset (url_elements (sitemapData g)) = mset (map snd (take ?n (nodeLookup g)))"
    by (simp add: url_elements_sitemapData)
  have "mset (map fst (nodesToProcess g)) = mset (map fst (take ?n (nodeTriples g)))"
    by (simp add: E)
  also have "map fst (take ?n (nodeTriples g)) = take ?n (js_keys (nodeLookup g))"
    by (simp add: nodeTriples_keys flip: take_map)
  finally have ids: "mset (map fst (nodesToProcess g)) = mset (take ?n (js_keys (nodeLookup g)))" .
  have doc: "generateXmlFromNodes env g =
      transformReadyToAbsolute env (getDeclarations env @ xml env (sitemapData g))"
    by (simp add: generateXmlFromNodes_def)
  from count nodes ids E doc show ?thesis
    by (intro conjI)
qed

text \<open>
  With a cap of two and ids that enumerate as \<^verbatim>\<open>9, 10, b, a\<close>, the newest record (\<^verbatim>\<open>b\<close>) is
  not in the document.
\<close>

theorem cap_keeps_first_of_enumeration_witness:
  "maxNodes (fst (run sample_env
       [AddUrl ''/b'' (record_at ''b'' (Some 500)), AddUrl ''/a'' (record_at ''a'' (Some 50)),
        AddUrl ''/10'' (record_at ''10'' (Some 300)), AddUrl ''/9'' (record_at ''9'' (Some 100))]
       (new_generator\<lparr>maxNodes := 2\<rparr>, clock_at 1000 []))) = 2 \<and>
   js_keys (nodeLookup (fst (run sample_env
       [AddUrl ''/b'' (record_at ''b'' (Some 500)), AddUrl ''/a'' (record_at ''a'' (Some 50)),
        AddUrl ''/10'' (record_at ''10'' (Some 300)), AddUrl ''/9'' (record_at ''9'' (Some 100))]
       (new_generator\<lparr>maxNodes := 2\<rparr>, clock_at 1000 [])))) = [''9'', ''10'', ''b'', ''a''] \<and>
   url_elements (sitemapData (fst (run sample_env
       [AddUrl ''/b'' (record_at ''b'' (Some 500)), AddUrl ''/a'' (record_at ''a'' (Some 50)),
        AddUrl ''/10'' (record_at ''10'' (Some 300)), AddUrl ''/9'' (record_at ''9'' (Some 100))]
       (new_generator\<lparr>maxNodes := 2\<rparr>, clock_at 1000 [])))) =
     [Url [Loc ''/10'', Lastmod 300], Url [Loc ''/9'', Lastmod 100]] \<and>
   length (url_elements (sitemapData (fst (run sample_env
       [AddUrl ''/b'' (record_at ''b'' (Some 500)), AddUrl ''/a'' (record_at ''a'' (Some 50)),
        AddUrl ''/10'' (record_at ''10'' (Some 300)), AddUrl ''/9'' (record_at ''9'' (Some 100))]
       (new_generator\<lparr>maxNodes := 2\<rparr>, clock_at 1000 []))))) =
     maxNodes (fst (run sample_env
       [AddUrl ''/b'' (record_at ''b'' (Some 500)), AddUrl ''/a'' (record_at ''a'' (Some 50)),
        AddUrl ''/10'' (record_at ''10'' (Some 300)), AddUrl ''/9'' (record_at ''9'' (Some 100))]
       (new_generator\<lparr>maxNodes := 2\<rparr>, clock_at 1000 [])))"
proof -
  let ?g = "fst (run sample_env
       [AddUrl ''/b'' (record_at ''b'' (Some 500)), AddUrl ''/a'' (record_at ''a'' (Some 50)),
        AddUrl ''/10'' (record_at ''10'' (Some 300)), AddUrl ''/9'' (record_at ''9'' (Some 100))]
       (new_generator\<lparr>maxNodes := 2\<rparr>, clock_at 1000 []))"
  have cap: "maxNodes ?g = 2"
    by code_simp
  then have cap0: "maxNodes ?g \<noteq> 0"
    by simp
  have keys: "js_keys (nodeLookup ?g) = [''9'', ''10'', ''b'', ''a'']"
    by code_simp
  have many: "maxNodes ?g < length (js_keys (nodeLookup ?g))"
    by (simp only: cap keys) simp
  have urls: "url_elements (sitemapData ?g) =
     [Url [Loc ''/10'', Lastmod 300], Url [Loc ''/9'', Lastmod 100]]"
    by code_simp
  from cap_keeps_first_of_enumeration [OF cap0 many, of sample_env]
  have "length (url_elements (sitemapData ?g)) = maxNodes ?g"
    by (rule conjunct1)
  with cap keys urls show ?thesis
    by (intro conjI)
qed

subsection \<open>The high-water mark\<close>

lemma run_add_Cons:
  "run env (add_calls (a # rest)) s = run env (add_calls rest) (addUrl env (fst a) (snd a) s)"
  by (simp add: run_def add_calls_def)

text \<open>\<^verbatim>\<open>lastModified\<close> never decreases across \<^verbatim>\<open>addUrl\<close> calls.\<close>

lemma lastModified_addUrl: "lastModified (fst s) \<le> lastModified (fst (addUrl env u d s))"
  by (cases s) (simp add: addUrl_eq Let_def case_prod_beta)

lemma lastModified_add_calls:
  "lastModified (fst s) \<le> lastModified (fst (run env (add_calls ys) s))"
proof (induction ys arbitrary: s)
  case Nil
  show ?case by (simp add: run_def add_calls_def)
next
  case (Cons a ys)
  have "lastModified (fst s) \<le> lastModified (fst (addUrl env (fst a) (snd a) s))"
    by (rule lastModified_addUrl)
  also have "\<dots> \<le> lastModified (fst (run env (add_calls ys) (addUrl env (fst a) (snd a) s)))"
    by (rule Cons.IH)
  finally show ?case
    by (simp add: run_add_Cons)
qed

lemma set_update_subset: "set (AList.update k v al) \<subseteq> insert (k, v) (set al)"
  by (induction al) auto

lemma set_js_put: "set (js_put k v obj) \<subseteq> insert (k, v) (set obj)"
  using set_update_subset [of k v obj]
  by (auto simp: js_put_def set_insert_index split: option.splits)

lemma getLastModifiedForDatum_stamped:
  "has_timestamp d \<Longrightarrow>
   getLastModifiedForDatum d c =
     (num_of (or_number (or_number (updated_at d) (published_at d)) (created_at d)), c)"
  by (auto simp: has_timestamp_def getLastModifiedForDatum_def or_number_def)

text \<open>
  The path of a record with a timestamp keeps the high-water mark: every derivation gives
  the same value, so what \<^verbatim>\<open>updateLookups\<close> stores is what \<^verbatim>\<open>updateLastModified\<close> compared.
\<close>

lemma bounded_addUrl_stamped:
  assumes "bounded_by_lastModified (fst s)" and "has_timestamp d"
  shows "bounded_by_lastModified (fst (addUrl env u d s))"
proof -
  obtain g c where s: "s = (g, c)"
    by (cases s)
  let ?t = "num_of (or_number (or_number (updated_at d) (published_at d)) (created_at d))"
  have lm: "getLastModifiedForDatum d c' = (?t, c')" for c'
    using assms(2) by (rule getLastModifiedForDatum_stamped)
  have old: "snd p \<le> lastModified g" if "p \<in> set (nodeTimeLookup g)" for p
    using assms(1) that by (simp add: s bounded_by_lastModified_def list_all_iff)
  have "snd p \<le> max (lastModified g) ?t" if "p \<in> set (js_put (datum_id d) ?t (nodeTimeLookup g))" for p
  proof -
    from that set_js_put have "p = (datum_id d, ?t) \<or> p \<in> set (nodeTimeLookup g)"
      by fastforce
    then show ?thesis
      using old [of p] by auto
  qed
  then show ?thesis
    by (simp add: s addUrl_eq lm Let_def bounded_by_lastModified_def list_all_iff)
qed

lemma bounded_add_calls_stamped:
  "bounded_by_lastModified (fst s) \<Longrightarrow> list_all (\<lambda>a. has_timestamp (snd a)) xs \<Longrightarrow>
   bounded_by_lastModified (fst (run env (add_calls xs) s))"
proof (induction xs arbitrary: s)
  case Nil
  then show ?case by (simp add: run_def add_calls_def)
next
  case (Cons a xs)
  from Cons.prems have "bounded_by_lastModified (fst (addUrl env (fst a) (snd a) s))"
    by (simp add: bounded_addUrl_stamped)
  moreover from Cons.prems have "list_all (\<lambda>a. has_timestamp (snd a)) xs"
    by simp
  ultimately show ?case
    by (simp add: run_add_Cons Cons.IH)
qed

text \<open>
  C5. After every sequence of \<^verbatim>\<open>addUrl\<close> calls, \<^verbatim>\<open>lastModified\<close> is at least every value that
  an add stored in \<^verbatim>\<open>nodeTimeLookup\<close>, and it never decreases across the calls. The second
  half holds (\<open>lastModified_add_calls\<close>), and so does the first for records with a
  timestamp (\<open>bounded_add_calls_stamped\<close>). For a record without one the code departs
  from it: \<^verbatim>\<open>addUrl\<close> reads the clock afresh in \<^verbatim>\<open>updateLastModified\<close> and in
  \<^verbatim>\<open>updateLookups\<close>, and stores the later reading without comparing it. On a new
  generator, with the clock at 1000 and one millisecond later at the third reading, the
  stored timestamp is 1001 and \<^verbatim>\<open>lastModified\<close> is 1000; the same call for a record whose
  \<^verbatim>\<open>updated_at\<close> is 1001 leaves \<^verbatim>\<open>lastModified\<close> at 1001.
\<close>

theorem addUrl_stores_above_lastModified:
  "js_get (nodeTimeLookup (fst (run sample_env (add_calls [(''/a'', record_at ''1'' None)])
       (new_generator, clock_at 1000 [0, 0, 1])))) ''1'' = Some 1001 \<and>
   lastModified (fst (run sample_env (add_calls [(''/a'', record_at ''1'' None)])
       (new_generator, clock_at 1000 [0, 0, 1]))) = 1000 \<and>
   \<not> bounded_by_lastModified (fst (run sample_env (add_calls [(''/a'', record_at ''1'' None)])
       (new_generator, clock_at 1000 [0, 0, 1]))) \<and>
   js_get (nodeTimeLookup (fst (run sample_env (add_calls [(''/a'', record_at ''1'' (Some 1001))])
       (new_generator, clock_at 1000 [0, 0, 1])))) ''1'' = Some 1001 \<and>
   lastModified (fst (run sample_env (add_calls [(''/a'', record_at ''1'' (Some 1001))])
       (new_generator, clock_at 1000 [0, 0, 1]))) = 1001 \<and>
   bounded_by_lastModified (fst (run sample_env (add_calls [(''/a'', record_at ''1'' (Some 1001))])
       (new_generator, clock_at 1000 [0, 0, 1])))"
  by code_simp

end
